theory Spec2Isabelle
  imports Complex_Main
begin

section \<open>Values, errors and the helpers of kml-path-lifter.py\<close>

text \<open>
  The script computes with \<open>mpf\<close> numbers. They are modelled as exact rationals: every
  decimal token of a KML file denotes a rational, and the operations the script uses
  (\<open>+\<close>, \<open>-\<close>, \<open>/ 2\<close>, \<open>%\<close>, comparisons) are closed on them. Rounding to the working
  precision of the number library is outside this model.

  Exceptions are values of the type \<open>error\<close>: a function that can raise returns
  \<open>error + 'a\<close>, with \<open>Inl\<close> for the exception.
\<close>

datatype error = ZeroDivisionError | TypeError

text \<open>
  Python's \<open>a % m\<close>: the remainder has the sign of the divisor, \<open>a - m * floor (a / m)\<close>,
  and a zero divisor raises.
\<close>

definition pymod :: "rat \<Rightarrow> rat \<Rightarrow> error + rat" where
  "pymod a m = (if m = 0 then Inl ZeroDivisionError else Inr (a - m * of_int \<lfloor>a / m\<rfloor>))"

text \<open>\<open>minn\<close> and \<open>maxn\<close> (lines 47-60): \<open>None\<close> is the neutral element.\<close>

fun minn :: "rat option \<Rightarrow> rat option \<Rightarrow> rat option" where
  "minn None b = b"
| "minn (Some a) None = Some a"
| "minn (Some a) (Some b) = Some (min a b)"

fun maxn :: "rat option \<Rightarrow> rat option \<Rightarrow> rat option" where
  "maxn None b = b"
| "maxn (Some a) None = Some a"
| "maxn (Some a) (Some b) = Some (max a b)"

section \<open>The function lift (lines 63-116)\<close>

text \<open>
  The state of the first loop is the triple \<open>(o0, o1, keep)\<close>. \<open>arc_step\<close> is the body of
  the loop at lines 86-100 for one arc \<open>(x, y)\<close>, \<open>arcs_loop\<close> the loop itself; an exception
  of the body ends the loop.
\<close>

type_synonym lift_state = "rat option \<times> rat option \<times> (rat \<times> rat) list"

definition arc_step :: "rat \<Rightarrow> lift_state \<Rightarrow> rat \<times> rat \<Rightarrow> error + lift_state" where
  "arc_step m s a =
     (case s of (o0, o1, keep) \<Rightarrow>
       (case a of (x, y) \<Rightarrow>
         (case pymod (x - y) m of Inl e \<Rightarrow> Inl e
          | Inr bwd \<Rightarrow>
             (case pymod (y - x) m of Inl e \<Rightarrow> Inl e
              | Inr fwd \<Rightarrow>
                 if bwd < fwd then
                   (if x < y then Inr (maxn o0 (Some x), minn o1 (Some y), keep)
                    else Inr (o0, o1, keep @ [(y, x)]))
                 else
                   (if y < x then Inr (maxn o0 (Some y), minn o1 (Some x), keep)
                    else Inr (o0, o1, keep @ [(x, y)]))))))"

fun arcs_loop :: "rat \<Rightarrow> lift_state \<Rightarrow> (rat \<times> rat) list \<Rightarrow> error + lift_state" where
  "arcs_loop m s [] = Inr s"
| "arcs_loop m s (a # as) =
     (case arc_step m s a of Inl e \<Rightarrow> Inl e | Inr s' \<Rightarrow> arcs_loop m s' as)"

text \<open>The loop at lines 105-107: \<open>o0\<close> is updated while the keep list is traversed.\<close>

fun widen_loop :: "rat \<Rightarrow> (rat \<times> rat) list \<Rightarrow> rat" where
  "widen_loop o0 [] = o0"
| "widen_loop o0 ((x, y) # ks) = widen_loop (if x \<le> o0 then max o0 y else o0) ks"

text \<open>The loop at lines 109-111: \<open>o0\<close> is fixed, \<open>o1\<close> is updated.\<close>

fun tighten_loop :: "rat \<Rightarrow> rat \<Rightarrow> (rat \<times> rat) list \<Rightarrow> rat" where
  "tighten_loop o0 o1 [] = o1"
| "tighten_loop o0 o1 ((x, y) # ks) = tighten_loop o0 (if x > o0 then min o1 x else o1) ks"

text \<open>
  \<open>lift l m\<close>. The slice \<open>l[1:]\<close> of an empty list is empty, as \<open>tl []\<close> is. The test
  \<open>o0 >= o1\<close> at line 102 compares a number with \<open>None\<close> when only \<open>o1\<close> is unset, which
  raises \<open>TypeError\<close> in Python 3.
\<close>

definition lift :: "rat list \<Rightarrow> rat \<Rightarrow> error + rat option" where
  "lift l m =
     (let arcs = zip l (tl l) in
      case arcs_loop m (None, None, []) arcs of Inl e \<Rightarrow> Inl e
      | Inr (o0, o1, keep) \<Rightarrow>
        (case o0 of None \<Rightarrow> Inr None
         | Some a \<Rightarrow>
           (case o1 of None \<Rightarrow> Inl TypeError
            | Some b \<Rightarrow>
              if a \<ge> b then Inr None
              else
                let a' = widen_loop a keep;
                    b' = tighten_loop a' b keep
                in if a' \<ge> b' then Inr None
                   else Inr (Some (a' + (b' - a') / 2)))))"

section \<open>Coordinates and the per-element body of process_kml (lines 130-143)\<close>

record Coordinates =
  longitude :: rat
  latitude :: rat
  z :: rat

text \<open>
  The list \<open>l\<close> and the flag \<open>changed\<close> are the state of the body. Lines 131-136 adjust
  the longitudes, lines 138-143 the latitudes of the list the first block left.
\<close>

definition adjust_longitude :: "Coordinates list \<times> bool \<Rightarrow> error + Coordinates list \<times> bool" where
  "adjust_longitude s =
     (case s of (l, changed) \<Rightarrow>
       (case lift (map longitude l) 360 of Inl e \<Rightarrow> Inl e
        | Inr None \<Rightarrow> Inr (l, changed)
        | Inr (Some t) \<Rightarrow>
            Inr (map (\<lambda>c. if longitude c < t then c\<lparr>longitude := longitude c + 360\<rparr> else c) l,
                 True)))"

definition adjust_latitude :: "Coordinates list \<times> bool \<Rightarrow> error + Coordinates list \<times> bool" where
  "adjust_latitude s =
     (case s of (l, changed) \<Rightarrow>
       (case lift (map latitude l) 180 of Inl e \<Rightarrow> Inl e
        | Inr None \<Rightarrow> Inr (l, changed)
        | Inr (Some t) \<Rightarrow>
            Inr (map (\<lambda>c. if latitude c < t then c\<lparr>latitude := latitude c + 180\<rparr> else c) l,
                 True)))"

definition process_coordinates :: "Coordinates list \<Rightarrow> error + Coordinates list \<times> bool" where
  "process_coordinates l =
     (case adjust_longitude (l, False) of Inl e \<Rightarrow> Inl e
      | Inr s \<Rightarrow> adjust_latitude s)"

section \<open>The solver in the words of its specification\<close>

text \<open>
  The quantities the description of the solver names, defined independently of the loops
  of \<open>lift\<close>: the remainder for a non-zero period, the arcs of a sequence, the constraint
  interval of a violating arc, the keep pair of a consistent arc, the intersection
  \<open>(bound_lo, bound_hi)\<close> of the constraint intervals, and the interval after the
  validation against the keep pairs.
\<close>

definition pmod :: "rat \<Rightarrow> rat \<Rightarrow> rat" where
  "pmod a m = a - m * of_int \<lfloor>a / m\<rfloor>"

definition arcs_of :: "rat list \<Rightarrow> (rat \<times> rat) list" where
  "arcs_of l = zip l (tl l)"

definition constraint_of :: "rat \<Rightarrow> rat \<times> rat \<Rightarrow> (rat \<times> rat) option" where
  "constraint_of m p =
     (case p of (a, b) \<Rightarrow>
      if pmod (a - b) m < pmod (b - a) m
      then (if a < b then Some (a, b) else None)
      else (if b < a then Some (b, a) else None))"

definition keep_of :: "rat \<Rightarrow> rat \<times> rat \<Rightarrow> (rat \<times> rat) option" where
  "keep_of m p =
     (case p of (a, b) \<Rightarrow>
      if pmod (a - b) m < pmod (b - a) m
      then (if a < b then None else Some (b, a))
      else (if b < a then None else Some (a, b)))"

definition constraints :: "rat \<Rightarrow> rat list \<Rightarrow> (rat \<times> rat) list" where
  "constraints m l = List.map_filter (constraint_of m) (arcs_of l)"

definition keep_pairs :: "rat \<Rightarrow> rat list \<Rightarrow> (rat \<times> rat) list" where
  "keep_pairs m l = List.map_filter (keep_of m) (arcs_of l)"

definition bound_lo :: "rat \<Rightarrow> rat list \<Rightarrow> rat" where
  "bound_lo m l = Max (set (map fst (constraints m l)))"

definition bound_hi :: "rat \<Rightarrow> rat list \<Rightarrow> rat" where
  "bound_hi m l = Min (set (map snd (constraints m l)))"

definition final_lo :: "rat \<Rightarrow> rat list \<Rightarrow> rat" where
  "final_lo m l = widen_loop (bound_lo m l) (keep_pairs m l)"

definition final_hi :: "rat \<Rightarrow> rat list \<Rightarrow> rat" where
  "final_hi m l = tighten_loop (final_lo m l) (bound_hi m l) (keep_pairs m l)"

definition no_cut :: "rat \<Rightarrow> rat list \<Rightarrow> bool" where
  "no_cut m l = (constraints m l = [] \<or> bound_hi m l \<le> bound_lo m l \<or> final_hi m l \<le> final_lo m l)"

text \<open>
  Applying a cut \<open>t\<close> to a sequence of values: the period is added to every value strictly
  less than \<open>t\<close> (what lines 133-135 and 140-142 do to the selected field).
\<close>

definition apply_cut :: "rat \<Rightarrow> rat \<Rightarrow> rat list \<Rightarrow> rat list" where
  "apply_cut t m l = map (\<lambda>v. if v < t then v + m else v) l"

text \<open>
  The same for one value and an optional cut: with "no cut" the value stays as it is.
\<close>

definition cut_value :: "rat option \<Rightarrow> rat \<Rightarrow> rat \<Rightarrow> rat" where
  "cut_value r p v = (case r of None \<Rightarrow> v | Some t \<Rightarrow> if v < t then v + p else v)"

section \<open>The loops of lift compute the specified quantities\<close>

lemma pymod_pmod: "m \<noteq> 0 \<Longrightarrow> pymod a m = Inr (pmod a m)"
  by (simp add: pymod_def pmod_def)

lemma arc_step_run:
  assumes "m \<noteq> 0"
  shows "arc_step m (o0, o1, keep) a =
    Inr (case constraint_of m a of None \<Rightarrow> o0 | Some (lo, hi) \<Rightarrow> maxn o0 (Some lo),
         case constraint_of m a of None \<Rightarrow> o1 | Some (lo, hi) \<Rightarrow> minn o1 (Some hi),
         case keep_of m a of None \<Rightarrow> keep | Some k \<Rightarrow> keep @ [k])"
  using assms
  by (cases a) (simp add: arc_step_def pymod_pmod constraint_of_def keep_of_def)

lemma arcs_loop_run:
  assumes "m \<noteq> 0"
  shows "arcs_loop m (o0, o1, keep) as =
    Inr (fold (\<lambda>c b. maxn b (Some (fst c))) (List.map_filter (constraint_of m) as) o0,
         fold (\<lambda>c b. minn b (Some (snd c))) (List.map_filter (constraint_of m) as) o1,
         keep @ List.map_filter (keep_of m) as)"
proof (induction as arbitrary: o0 o1 keep)
  case Nil
  show ?case by simp
next
  case (Cons a as)
  show ?case
    by (simp add: arc_step_run [OF assms] Cons.IH split: option.splits)
qed

lemma fold_maxn_Some:
  "fold (\<lambda>c b. maxn b (Some (fst c))) V (Some a) = Some (Max (insert a (set (map fst V))))"
proof (induction V arbitrary: a)
  case Nil
  show ?case by simp
next
  case (Cons c V)
  have "Max (insert (max a (fst c)) (fst ` set V)) = Max (insert a (insert (fst c) (fst ` set V)))"
    by (cases "V = []") (simp_all add: max.assoc)
  then show ?case by (simp add: Cons.IH)
qed

lemma fold_minn_Some:
  "fold (\<lambda>c b. minn b (Some (snd c))) V (Some a) = Some (Min (insert a (set (map snd V))))"
proof (induction V arbitrary: a)
  case Nil
  show ?case by simp
next
  case (Cons c V)
  have "Min (insert (min a (snd c)) (snd ` set V)) = Min (insert a (insert (snd c) (snd ` set V)))"
    by (cases "V = []") (simp_all add: min.assoc)
  then show ?case by (simp add: Cons.IH)
qed

lemma fold_maxn_None:
  "fold (\<lambda>c b. maxn b (Some (fst c))) V None =
     (if V = [] then None else Some (Max (set (map fst V))))"
  by (cases V) (simp_all add: fold_maxn_Some)

lemma fold_minn_None:
  "fold (\<lambda>c b. minn b (Some (snd c))) V None =
     (if V = [] then None else Some (Min (set (map snd V))))"
  by (cases V) (simp_all add: fold_minn_Some)

lemma lift_run:
  assumes "m \<noteq> 0"
  shows "lift l m =
    Inr (if no_cut m l then None
         else Some (final_lo m l + (final_hi m l - final_lo m l) / 2))"
  by (simp add: lift_def arcs_loop_run [OF assms] fold_maxn_None fold_minn_None no_cut_def
      final_hi_def final_lo_def bound_lo_def bound_hi_def constraints_def keep_pairs_def
      arcs_of_def Let_def)

section \<open>Where the bounds and the cut lie\<close>






















section \<open>The remainder is periodic; arcs after a cut\<close>












section \<open>The two blocks of the body\<close>

lemma lift_total: "m \<noteq> 0 \<Longrightarrow> \<exists>r. lift l m = Inr r"
  by (simp add: lift_run)

lemma adjust_longitude_run:
  assumes "lift (map longitude l) 360 = Inr r"
  shows "adjust_longitude (l, changed) =
           Inr (map (\<lambda>c. c\<lparr>longitude := cut_value r 360 (longitude c)\<rparr>) l, changed \<or> r \<noteq> None)"
proof (cases r)
  case None
  with assms show ?thesis by (simp add: adjust_longitude_def cut_value_def)
next
  case (Some t)
  have "(if longitude c < t then c\<lparr>longitude := longitude c + 360\<rparr> else c) =
        c\<lparr>longitude := if longitude c < t then longitude c + 360 else longitude c\<rparr>" for c :: Coordinates
    by simp
  with Some assms show ?thesis by (simp add: adjust_longitude_def cut_value_def)
qed

lemma adjust_latitude_run:
  assumes "lift (map latitude l) 180 = Inr r"
  shows "adjust_latitude (l, changed) =
           Inr (map (\<lambda>c. c\<lparr>latitude := cut_value r 180 (latitude c)\<rparr>) l, changed \<or> r \<noteq> None)"
proof (cases r)
  case None
  with assms show ?thesis by (simp add: adjust_latitude_def cut_value_def)
next
  case (Some t)
  have "(if latitude c < t then c\<lparr>latitude := latitude c + 180\<rparr> else c) =
        c\<lparr>latitude := if latitude c < t then latitude c + 180 else latitude c\<rparr>" for c :: Coordinates
    by simp
  with Some assms show ?thesis by (simp add: adjust_latitude_def cut_value_def)
qed

section \<open>Properties of the solver and of the adjuster\<close>




text \<open>
  C2. Each of the two blocks of the body calls the solver on its axis (longitude with
  period 360, latitude with period 180), and the solver returns a result. With a cut \<open>t\<close>
  the block adds the period to the selected field of exactly the coordinates whose field
  value is strictly less than \<open>t\<close> and sets \<open>changed\<close>; with "no cut" it leaves the path
  and the flag as they are. The other two fields of every coordinate and the length of
  the path are the same before and after.
\<close>

theorem axis_adjuster_contract:
  "(\<exists>r l'. lift (map longitude l) 360 = Inr r
      \<and> adjust_longitude (l, changed) = Inr (l', changed \<or> r \<noteq> None)
      \<and> length l' = length l
      \<and> (\<forall>i < length l.
            longitude (l' ! i) = cut_value r 360 (longitude (l ! i))
          \<and> latitude (l' ! i) = latitude (l ! i) \<and> z (l' ! i) = z (l ! i))
      \<and> (r = None \<longrightarrow> l' = l))
   \<and> (\<exists>r l'. lift (map latitude l) 180 = Inr r
      \<and> adjust_latitude (l, changed) = Inr (l', changed \<or> r \<noteq> None)
      \<and> length l' = length l
      \<and> (\<forall>i < length l.
            latitude (l' ! i) = cut_value r 180 (latitude (l ! i))
          \<and> longitude (l' ! i) = longitude (l ! i) \<and> z (l' ! i) = z (l ! i))
      \<and> (r = None \<longrightarrow> l' = l))"
proof (intro conjI)
  obtain r where r: "lift (map longitude l) 360 = Inr r"
    using lift_total [of 360 "map longitude l"] by auto
  let ?l' = "map (\<lambda>c. c\<lparr>longitude := cut_value r 360 (longitude c)\<rparr>) l"
  have "r = None \<longrightarrow> ?l' = l" by (simp add: cut_value_def map_idI)
  with r adjust_longitude_run [OF r, of changed]
  show "\<exists>r l'. lift (map longitude l) 360 = Inr r
      \<and> adjust_longitude (l, changed) = Inr (l', changed \<or> r \<noteq> None)
      \<and> length l' = length l
      \<and> (\<forall>i < length l.
            longitude (l' ! i) = cut_value r 360 (longitude (l ! i))
          \<and> latitude (l' ! i) = latitude (l ! i) \<and> z (l' ! i) = z (l ! i))
      \<and> (r = None \<longrightarrow> l' = l)"
    by (intro exI [of _ r] exI [of _ ?l']) simp
next
  obtain r where r: "lift (map latitude l) 180 = Inr r"
    using lift_total [of 180 "map latitude l"] by auto
  let ?l' = "map (\<lambda>c. c\<lparr>latitude := cut_value r 180 (latitude c)\<rparr>) l"
  have "r = None \<longrightarrow> ?l' = l" by (simp add: cut_value_def map_idI)
  with r adjust_latitude_run [OF r, of changed]
  show "\<exists>r l'. lift (map latitude l) 180 = Inr r
      \<and> adjust_latitude (l, changed) = Inr (l', changed \<or> r \<noteq> None)
      \<and> length l' = length l
      \<and> (\<forall>i < length l.
            latitude (l' ! i) = cut_value r 180 (latitude (l ! i))
          \<and> longitude (l' ! i) = longitude (l ! i) \<and> z (l' ! i) = z (l ! i))
      \<and> (r = None \<longrightarrow> l' = l)"
    by (intro exI [of _ r] exI [of _ ?l']) simp
qed

theorem axis_adjuster_contract_witness:
  "adjust_longitude
     ([\<lparr>longitude = 359, latitude = 10, z = 7\<rparr>, \<lparr>longitude = 1, latitude = 20, z = 8\<rparr>], False)
   = Inr ([\<lparr>longitude = 359, latitude = 10, z = 7\<rparr>, \<lparr>longitude = 361, latitude = 20, z = 8\<rparr>], True)
   \<and> adjust_latitude
     ([\<lparr>longitude = 359, latitude = 10, z = 7\<rparr>, \<lparr>longitude = 1, latitude = 20, z = 8\<rparr>], False)
   = Inr ([\<lparr>longitude = 359, latitude = 10, z = 7\<rparr>, \<lparr>longitude = 1, latitude = 20, z = 8\<rparr>], False)"
proof -
  let ?l = "[\<lparr>longitude = 359, latitude = 10, z = 7\<rparr>, \<lparr>longitude = 1, latitude = 20, z = 8\<rparr>]"
  have lon: "lift (map longitude ?l) 360 = Inr (Some 180)" by code_simp
  have lat: "lift (map latitude ?l) 180 = Inr None" by code_simp
  from axis_adjuster_contract [of ?l False]
  obtain l1 l2 where
    a1: "adjust_longitude (?l, False) = Inr (l1, True)" and n1: "length l1 = 2"
    and p1: "\<forall>i < 2. longitude (l1 ! i) = cut_value (Some 180) 360 (longitude (?l ! i))
          \<and> latitude (l1 ! i) = latitude (?l ! i) \<and> z (l1 ! i) = z (?l ! i)"
    and a2: "adjust_latitude (?l, False) = Inr (l2, False)" and e2: "l2 = ?l"
    unfolding lon lat by auto
  from p1 have "l1 ! 0 = \<lparr>longitude = 359, latitude = 10, z = 7\<rparr>"
    and "l1 ! 1 = \<lparr>longitude = 361, latitude = 20, z = 8\<rparr>"
    by (simp_all add: cut_value_def)
  with n1 have "l1 = [\<lparr>longitude = 359, latitude = 10, z = 7\<rparr>, \<lparr>longitude = 361, latitude = 20, z = 8\<rparr>]"
    by (cases l1; cases "tl l1") auto
  with a1 a2 e2 show ?thesis by simp
qed





text \<open>
  C5. \<open>lift [359, 1] 360\<close> returns the cut 180, and applying it shifts 1 to 361 and leaves
  359 unchanged: the adjusted sequence is \<open>[359, 361]\<close>.
\<close>

theorem lift_boundary_359_1:
  "lift [359, 1] 360 = Inr (Some 180) \<and> apply_cut 180 360 [359, 1] = [359, 361]"
  by code_simp



text \<open>
  C7. On a list of fewer than two values \<open>lift\<close> returns "no cut" and raises nothing,
  whatever the period: there is no arc, so the loop body never runs.
\<close>

theorem lift_short_input:
  assumes "length l < 2"
  shows "lift l m = Inr None"
proof (cases l)
  case Nil
  then show ?thesis by (simp add: lift_def)
next
  case (Cons x xs)
  with assms have "xs = []" by simp
  with Cons show ?thesis by (simp add: lift_def)
qed

theorem lift_short_input_witness:
  "length [5 :: rat] < 2 \<and> lift [5] 360 = Inr None \<and> lift [] 360 = Inr None"
proof -
  have h1: "length [5 :: rat] < 2" by simp
  have h0: "length ([] :: rat list) < 2" by simp
  from lift_short_input [OF h1, of 360] lift_short_input [OF h0, of 360] h1
  show ?thesis by blast
qed

text \<open>
  C8. The body of \<open>process_kml\<close> returns for every path, and every coordinate of the
  path it returns has the altitude \<open>z\<close> it had in the input, whether or not an axis changed.
\<close>

theorem altitude_unchanged:
  "\<exists>l' changed. process_coordinates l = Inr (l', changed) \<and> map z l' = map z l"
proof -
  obtain r1 where r1: "lift (map longitude l) 360 = Inr r1"
    using lift_total [of 360 "map longitude l"] by auto
  let ?l1 = "map (\<lambda>c. c\<lparr>longitude := cut_value r1 360 (longitude c)\<rparr>) l"
  obtain r2 where r2: "lift (map latitude ?l1) 180 = Inr r2"
    using lift_total [of 180 "map latitude ?l1"] by auto
  let ?l2 = "map (\<lambda>c. c\<lparr>latitude := cut_value r2 180 (latitude c)\<rparr>) ?l1"
  have "process_coordinates l = Inr (?l2, False \<or> r1 \<noteq> None \<or> r2 \<noteq> None)"
    by (simp add: process_coordinates_def adjust_longitude_run [OF r1] adjust_latitude_run [OF r2])
  moreover have "map z ?l2 = map z l" by simp
  ultimately show ?thesis by blast
qed

theorem altitude_unchanged_witness:
  "\<exists>l' changed.
     process_coordinates
       [\<lparr>longitude = 359, latitude = 10, z = 7\<rparr>, \<lparr>longitude = 1, latitude = 20, z = 8\<rparr>]
     = Inr (l', changed) \<and> map z l' = [7, 8]"
  using altitude_unchanged
    [of "[\<lparr>longitude = 359, latitude = 10, z = 7\<rparr>, \<lparr>longitude = 1, latitude = 20, z = 8\<rparr>]"]
  by simp



end
